theory Spec2Isabelle
  imports Complex_Main "HOL-Library.Sublist"
begin

section \<open>Python strings\<close>

text \<open>
  The typing manager of \<^verbatim>\<open>src/core/realtime_typing_manager.py\<close> works on Python
  \<^verbatim>\<open>str\<close> values. A string is modelled as a list of characters, one \<^typ>\<open>char\<close> per code
  point, which covers the code points below 256; \<^verbatim>\<open>len\<close> is \<^const>\<open>length\<close>,
  \<^verbatim>\<open>a + b\<close> is \<^term>\<open>a @ b\<close>, \<^verbatim>\<open>new.startswith(old)\<close> is \<^term>\<open>prefix old new\<close> and
  \<^verbatim>\<open>new[len(old):]\<close> is \<^term>\<open>drop (length old) new\<close>.

  \<^verbatim>\<open>str.isspace\<close>, \<^verbatim>\<open>str.strip()\<close> and the regular expression class \<^verbatim>\<open>\s\<close> agree on which
  characters are whitespace; below 256 these are the codes 9-13, 28-32, 133 and 160.
  \<^verbatim>\<open>str.lower()\<close> maps A-Z and the Latin-1 capitals 192-222 (but not 215) to the code
  32 higher and leaves every other character below 256 alone.
\<close>

definition isspace :: "char \<Rightarrow> bool" where
  "isspace c = (of_char c \<in> {9, 10, 11, 12, 13, 28, 29, 30, 31, 32, 133, 160 :: nat})"

definition isupper_code :: "nat \<Rightarrow> bool" where
  "isupper_code n = ((65 \<le> n \<and> n \<le> 90) \<or> (192 \<le> n \<and> n \<le> 222 \<and> n \<noteq> 215))"

definition lower_char :: "char \<Rightarrow> char" where
  "lower_char c = (if isupper_code (of_char c) then char_of (of_char c + 32 :: nat) else c)"

definition lower :: "string \<Rightarrow> string" where
  "lower s = map lower_char s"

text \<open>Removing the longest suffix whose characters all satisfy \<open>p\<close>.\<close>

definition rstrip_while :: "(char \<Rightarrow> bool) \<Rightarrow> string \<Rightarrow> string" where
  "rstrip_while p s = rev (dropWhile p (rev s))"

definition strip :: "string \<Rightarrow> string" where
  "strip s = rstrip_while isspace (dropWhile isspace s)"

section \<open>Text normalizer and redundancy check\<close>

text \<open>
  \<^verbatim>\<open>normalize\<close> is the function nested in \<^verbatim>\<open>_is_redundant_with_finalized\<close>:
  \<^verbatim>\<open>
  s = (s or "").strip().lower()
  s = re.sub(r"[.!?\s]+$", "", s)
  s = re.sub(r"\s+", " ", s)
  \<close>
  The first substitution deletes the longest run of \<^verbatim>\<open>.\<close>, \<^verbatim>\<open>!\<close>, \<^verbatim>\<open>?\<close> and whitespace that
  ends the string; the second replaces every maximal run of whitespace by one space.
\<close>

definition trailing_class :: "char \<Rightarrow> bool" where
  "trailing_class c = (c = CHR ''.'' \<or> c = CHR ''!'' \<or> c = CHR ''?'' \<or> isspace c)"

function collapse_spaces :: "string \<Rightarrow> string" where
  "collapse_spaces [] = []"
| "collapse_spaces (c # cs) =
     (if isspace c then CHR '' '' # collapse_spaces (dropWhile isspace cs)
      else c # collapse_spaces cs)"
  by pat_completeness auto
termination
  by (relation "measure length") (auto simp: length_dropWhile_le less_Suc_eq_le)

definition normalize_text :: "string \<Rightarrow> string" where
  "normalize_text s =
     (let s1 = lower (strip s);
          s2 = rstrip_while trailing_class s1;
          s3 = collapse_spaces s2
      in s3)"

section \<open>The edit sink and the clock\<close>

text \<open>
  The manager types through \<^verbatim>\<open>pyautogui\<close>: \<^verbatim>\<open>typewrite(s)\<close> and \<^verbatim>\<open>press('backspace')\<close>,
  and it calls \<^verbatim>\<open>time.sleep(0.001)\<close> between two batches of backspaces. The environment
  records every such effect in the order the manager issues it. A \<^verbatim>\<open>pyautogui\<close> call may
  raise; \<open>raises w k\<close> tells whether the effect number \<open>k\<close> of the run does (the call is
  recorded either way, \<^verbatim>\<open>time.sleep\<close> never raises). Importing \<^verbatim>\<open>pyautogui\<close> is taken to
  succeed, the typing lock is uncontended (every operation below runs from start to end),
  debug printing is left out, and the clock reading of \<^verbatim>\<open>time.time()\<close> is an argument
  \<open>now\<close> of the operation that reads it, a real number.
\<close>

datatype effect = Typewrite string | Press string | Sleep

record env =
  issued :: "effect list"
  raises :: "nat \<Rightarrow> bool"

definition sink_call :: "effect \<Rightarrow> env \<Rightarrow> bool \<times> env" where
  "sink_call e w = (raises w (length (issued w)), w\<lparr>issued := issued w @ [e]\<rparr>)"

definition sleep :: "env \<Rightarrow> env" where
  "sleep w = w\<lparr>issued := issued w @ [Sleep]\<rparr>"

section \<open>The typing manager\<close>

text \<open>
  The three settings the manager reads from the configuration, and its own state as
  \<^verbatim>\<open>__init__\<close> creates it.
\<close>

record config =
  realtime_typing :: bool
  max_backspaces_per_update :: int
  finalize_suppress_window :: real

record manager =
  last_typed_text :: string
  last_finalized_text :: string
  suppress_realtime_until :: real

definition init_manager :: manager where
  "init_manager =
     \<lparr>last_typed_text = [], last_finalized_text = [], suppress_realtime_until = 0\<rparr>"

definition is_redundant_with_finalized :: "manager \<Rightarrow> string \<Rightarrow> bool" where
  "is_redundant_with_finalized m text =
     (if last_finalized_text m = [] then False
      else
        let new_normalized = normalize_text text;
            finalized_normalized = normalize_text (last_finalized_text m)
        in new_normalized \<noteq> [] \<and> finalized_normalized \<noteq> [] \<and>
           prefix new_normalized finalized_normalized)"

text \<open>
  \<^verbatim>\<open>for _ in range(batch_size): pyautogui.press('backspace')\<close>; the first component of the
  result tells whether a call raised, which ends the loop.
\<close>

fun press_backspaces :: "nat \<Rightarrow> env \<Rightarrow> bool \<times> env" where
  "press_backspaces 0 w = (False, w)"
| "press_backspaces (Suc n) w =
     (let r = sink_call (Press ''backspace'') w
      in if fst r then (True, snd r) else press_backspaces n (snd r))"

text \<open>
  The \<^verbatim>\<open>while remaining > 0\<close> loop of \<^verbatim>\<open>_replace_typed_text\<close>. Nothing in the code bounds
  \<^verbatim>\<open>max_backspaces\<close> from below, and with a value of zero or less \<^verbatim>\<open>remaining\<close> never
  decreases: the loop is a partial function, \<open>None\<close> standing for a run that never ends.
\<close>

partial_function (option) backspace_loop :: "int \<Rightarrow> int \<Rightarrow> env \<Rightarrow> (bool \<times> env) option" where
  "backspace_loop max_backspaces remaining w =
     (if remaining > 0 then
        (let batch_size = min remaining max_backspaces;
             r = press_backspaces (nat batch_size) w
         in if fst r then Some (True, snd r)
            else backspace_loop max_backspaces (remaining - batch_size)
                   (if remaining - batch_size > 0 then sleep (snd r) else snd r))
      else Some (False, w))"

declare backspace_loop.simps [code]

definition replace_typed_text :: "config \<Rightarrow> string \<Rightarrow> string \<Rightarrow> env \<Rightarrow> (bool \<times> env) option" where
  "replace_typed_text cfg old_text new_text w =
     (let old_len = int (length old_text)
      in case (if old_len > 0 then backspace_loop (max_backspaces_per_update cfg) old_len w
               else Some (False, w)) of
           None \<Rightarrow> None
         | Some r \<Rightarrow>
             if fst r then Some (True, snd r)
             else if new_text \<noteq> [] then Some (sink_call (Typewrite new_text) (snd r))
             else Some (False, snd r))"

text \<open>
  \<^verbatim>\<open>_type_realtime_text\<close>. The \<^verbatim>\<open>try\<close> block yields whether a sink call raised; the
  handler then clears \<^verbatim>\<open>last_typed_text\<close>, and otherwise the new text is stored. The
  two early \<^verbatim>\<open>return\<close>s leave the state as it is.
\<close>

definition type_realtime_text :: "config \<Rightarrow> string \<Rightarrow> manager \<times> env \<Rightarrow> (manager \<times> env) option" where
  "type_realtime_text cfg text st =
     (let m = fst st; w = snd st
      in if text = [] then Some (m, w)
         else
           let old_text = last_typed_text m; new_text = text
           in if new_text = old_text then Some (m, w)
              else
                case (if prefix old_text new_text then
                        (let suffix = drop (length old_text) new_text
                         in if suffix \<noteq> [] then Some (sink_call (Typewrite suffix) w)
                            else Some (False, w))
                      else replace_typed_text cfg old_text new_text w) of
                  None \<Rightarrow> None
                | Some r \<Rightarrow>
                    if fst r then Some (m\<lparr>last_typed_text := []\<rparr>, snd r)
                    else Some (m\<lparr>last_typed_text := new_text\<rparr>, snd r))"

definition process_realtime_update ::
  "config \<Rightarrow> real \<Rightarrow> string \<Rightarrow> manager \<times> env \<Rightarrow> (bool \<times> manager \<times> env) option" where
  "process_realtime_update cfg now text st =
     (let m = fst st; w = snd st
      in if text = [] \<or> strip text = [] then Some (False, m, w)
         else if \<not> realtime_typing cfg then Some (False, m, w)
         else if now < suppress_realtime_until m then Some (False, m, w)
         else if is_redundant_with_finalized m text then Some (False, m, w)
         else
           case type_realtime_text cfg text (m, w) of
             None \<Rightarrow> None
           | Some st' \<Rightarrow> Some (True, st'))"

text \<open>
  In \<^verbatim>\<open>_finalize_realtime_text\<close> the clock is read after the sink calls; \<open>now\<close> is that
  reading. Its handler of exceptions only returns \<^verbatim>\<open>False\<close>.
\<close>

definition finalize_realtime_text ::
  "config \<Rightarrow> real \<Rightarrow> string \<Rightarrow> manager \<times> env \<Rightarrow> (bool \<times> manager \<times> env) option" where
  "finalize_realtime_text cfg now final_text st =
     (let m = fst st; w = snd st;
          final_with_space = final_text @ '' '';
          old_live_text = last_typed_text m
      in case (if prefix old_live_text final_with_space then
                 (let suffix = drop (length old_live_text) final_with_space
                  in if suffix \<noteq> [] then Some (sink_call (Typewrite suffix) w)
                     else Some (False, w))
               else replace_typed_text cfg old_live_text final_with_space w) of
           None \<Rightarrow> None
         | Some r \<Rightarrow>
             if fst r then Some (False, m, snd r)
             else Some (True,
                    m\<lparr>last_typed_text := [],
                      last_finalized_text := final_text,
                      suppress_realtime_until := now + finalize_suppress_window cfg\<rparr>,
                    snd r))"

definition type_final_text_direct :: "string \<Rightarrow> manager \<times> env \<Rightarrow> bool \<times> manager \<times> env" where
  "type_final_text_direct final_text st =
     (let m = fst st; w = snd st;
          r = sink_call (Typewrite (final_text @ '' '')) w
      in if fst r then (False, m, snd r)
         else (True, m\<lparr>last_finalized_text := final_text\<rparr>, snd r))"

definition finalize_text ::
  "config \<Rightarrow> real \<Rightarrow> string \<Rightarrow> manager \<times> env \<Rightarrow> (bool \<times> manager \<times> env) option" where
  "finalize_text cfg now final_text st =
     (let m = fst st; w = snd st
      in if final_text = [] \<or> strip final_text = [] then Some (False, m, w)
         else if final_text = last_finalized_text m then Some (False, m, w)
         else if realtime_typing cfg then finalize_realtime_text cfg now final_text (m, w)
         else Some (type_final_text_direct final_text (m, w)))"

section \<open>Loading the configuration\<close>

text \<open>
  \<^verbatim>\<open>src/core/config.py\<close>. \<^verbatim>\<open>json.load\<close> yields Python values, and a dataclass checks no
  type, so a settings object is its fields, in the order of the class, each with whatever
  value it was given. \<^verbatim>\<open>Cls(**v)\<close> raises \<^verbatim>\<open>TypeError\<close> when \<open>v\<close> is no dictionary or has
  a key that is no field of the class (\<open>None\<close> below); otherwise every field takes the
  value of its key, or its default. Of a key that the file repeats \<^verbatim>\<open>json.load\<close> keeps
  the last value.
\<close>

datatype pyval =
  PNone | PBool bool | PInt int | PFloat real | PStr string
  | PList "pyval list" | PDict "(string \<times> pyval) list"

type_synonym settings = "(string \<times> pyval) list"

definition dataclass_init :: "settings \<Rightarrow> pyval \<Rightarrow> settings option" where
  "dataclass_init defaults v =
     (case v of
        PDict kw \<Rightarrow>
          if list_all (\<lambda>k. k \<in> set (map fst defaults)) (map fst kw)
          then Some (map (\<lambda>(f, d). (f, case map_of (rev kw) f of Some x \<Rightarrow> x | None \<Rightarrow> d))
                      defaults)
          else None
      | _ \<Rightarrow> None)"

text \<open>The seven dataclasses with their defaults.\<close>

definition BasicSettings :: settings where
  "BasicSettings =
     [(''model'', PStr ''small.en''), (''auto_punctuation'', PBool True),
      (''auto_capitalize'', PBool True), (''insert_mode'', PStr ''type''),
      (''realtime_typing'', PBool False)]"

definition WakeWordSettings :: settings where
  "WakeWordSettings =
     [(''enabled'', PBool False), (''wake_words'', PStr ''jarvis''),
      (''sensitivity'', PFloat (6 / 10)), (''custom_model_path'', PNone),
      (''timeout'', PFloat 12), (''conversation_window'', PFloat 4)]"

definition RealtimeSettings :: settings where
  "RealtimeSettings =
     [(''processing_pause'', PFloat (2 / 100)),
      (''post_speech_silence_duration'', PFloat (7 / 10)),
      (''min_length_of_recording'', PFloat (3 / 10)),
      (''min_gap_between_recordings'', PFloat 0),
      (''finalize_suppress_window'', PFloat (1 / 2)),
      (''max_backspaces_per_update'', PInt 512)]"

definition VADSettings :: settings where
  "VADSettings =
     [(''silero_sensitivity'', PFloat (5 / 100)), (''silero_use_onnx'', PBool False),
      (''webrtc_sensitivity'', PInt 3), (''early_transcription_on_silence'', PFloat (2 / 10))]"

definition ModelSettings :: settings where
  "ModelSettings =
     [(''beam_size'', PInt 5), (''beam_size_realtime'', PInt 3), (''batch_size'', PInt 16),
      (''initial_prompt'',
       PStr (''End incomplete sentences with ellipses. Examples: '' @
             ''Complete: The sky is blue. Incomplete: When the sky...''))]"

definition PauseDetectionSettings :: settings where
  "PauseDetectionSettings =
     [(''end_of_sentence_pause'', PFloat (45 / 100)),
      (''unknown_sentence_pause'', PFloat (7 / 10)), (''mid_sentence_pause'', PFloat 2)]"

definition AudioNotificationSettings :: settings where
  "AudioNotificationSettings =
     [(''enabled'', PBool True), (''volume'', PFloat (7 / 10)), (''sounds_dir'', PNone),
      (''play_ready_sound'', PBool True), (''play_start_sound'', PBool True),
      (''play_stop_sound'', PBool True), (''play_command_sound'', PBool True),
      (''play_error_sound'', PBool True)]"

record STTConfig =
  basic :: settings
  wake_word :: settings
  realtime :: settings
  vad :: settings
  model :: settings
  pause_detection :: settings
  audio_notifications :: settings

text \<open>\<^verbatim>\<open>STTConfig()\<close>, after \<^verbatim>\<open>__post_init__\<close>.\<close>

definition STTConfig_init :: STTConfig where
  "STTConfig_init =
     \<lparr>basic = BasicSettings, wake_word = WakeWordSettings, realtime = RealtimeSettings,
      vad = VADSettings, model = ModelSettings, pause_detection = PauseDetectionSettings,
      audio_notifications = AudioNotificationSettings\<rparr>"

text \<open>
  The settings file: absent, not readable as JSON (\<^verbatim>\<open>open\<close> or \<^verbatim>\<open>json.load\<close> raises), or
  parsed to a value. \<^verbatim>\<open>load_settings\<close> loads the sections in the order of
  \<open>section_table\<close>, each \<^verbatim>\<open>if name in data: self.config.name = Cls(**data[name])\<close>.
  \<open>load_sections\<close> is the body of its \<^verbatim>\<open>try\<close>: the flag tells whether a constructor raised,
  which ends the loading and keeps the sections assigned so far. The handler prints and
  goes on, so \<^verbatim>\<open>load_settings\<close> itself never raises, and no statement of it compares a
  loaded value with anything. For parsed data that is no dictionary either
  \<^verbatim>\<open>name in data\<close> or \<^verbatim>\<open>data[name]\<close> raises before any assignment, or no name is found.
  Writing the default file when none exists (\<^verbatim>\<open>save_settings\<close>) changes no setting.
\<close>

datatype settings_file = Missing | Unreadable | Parsed pyval

definition section_table :: "(string \<times> settings \<times> (settings \<Rightarrow> STTConfig \<Rightarrow> STTConfig)) list" where
  "section_table =
     [(''basic'', BasicSettings, \<lambda>s c. c\<lparr>basic := s\<rparr>),
      (''wake_word'', WakeWordSettings, \<lambda>s c. c\<lparr>wake_word := s\<rparr>),
      (''realtime'', RealtimeSettings, \<lambda>s c. c\<lparr>realtime := s\<rparr>),
      (''vad'', VADSettings, \<lambda>s c. c\<lparr>vad := s\<rparr>),
      (''model'', ModelSettings, \<lambda>s c. c\<lparr>model := s\<rparr>),
      (''pause_detection'', PauseDetectionSettings, \<lambda>s c. c\<lparr>pause_detection := s\<rparr>),
      (''audio_notifications'', AudioNotificationSettings,
       \<lambda>s c. c\<lparr>audio_notifications := s\<rparr>)]"

fun load_sections ::
  "(string \<times> pyval) list \<Rightarrow> (string \<times> settings \<times> (settings \<Rightarrow> STTConfig \<Rightarrow> STTConfig)) list
   \<Rightarrow> STTConfig \<Rightarrow> bool \<times> STTConfig" where
  "load_sections data [] c = (False, c)"
| "load_sections data ((name, defaults, assign) # rest) c =
     (case map_of (rev data) name of
        None \<Rightarrow> load_sections data rest c
      | Some v \<Rightarrow>
          (case dataclass_init defaults v of
             None \<Rightarrow> (True, c)
           | Some s \<Rightarrow> load_sections data rest (assign s c)))"

definition load_settings :: "settings_file \<Rightarrow> STTConfig \<Rightarrow> STTConfig" where
  "load_settings file c =
     (case file of
        Missing \<Rightarrow> c
      | Unreadable \<Rightarrow> c
      | Parsed (PDict data) \<Rightarrow> snd (load_sections data section_table c)
      | Parsed _ \<Rightarrow> c)"

text \<open>
  \<^verbatim>\<open>get_config()\<close> on its first call: \<^verbatim>\<open>ConfigManager()\<close> starts from the defaults and loads
  the file. This is all that happens to the configuration before the typing manager,
  created by \<^verbatim>\<open>RealtimeTypingManager()\<close>, reads it.
\<close>

definition get_config :: "settings_file \<Rightarrow> STTConfig" where
  "get_config file = load_settings file STTConfig_init"

text \<open>
  The three attributes the typing manager reads, when their values have the types the
  dataclasses announce (an integer window is as good as a float in \<^verbatim>\<open>time.time() + w\<close>).
\<close>

definition manager_config :: "STTConfig \<Rightarrow> config option" where
  "manager_config c =
     (case (map_of (basic c) ''realtime_typing'',
            map_of (realtime c) ''max_backspaces_per_update'',
            map_of (realtime c) ''finalize_suppress_window'') of
        (Some (PBool e), Some (PInt n), Some (PFloat x)) \<Rightarrow>
          Some \<lparr>realtime_typing = e, max_backspaces_per_update = n,
                finalize_suppress_window = x\<rparr>
      | (Some (PBool e), Some (PInt n), Some (PInt x)) \<Rightarrow>
          Some \<lparr>realtime_typing = e, max_backspaces_per_update = n,
                finalize_suppress_window = of_int x\<rparr>
      | _ \<Rightarrow> None)"

section \<open>The edit sequences the specification prescribes\<close>

text \<open>
  The specification's planner (its section 4.3) answers with \<open>Noop\<close>, \<open>Append suffix\<close> or
  \<open>Replace deleteCount insertText\<close>, a deletion being split into batches of at most
  \<open>maxBatch\<close> characters with a pause between two batches. The definitions below write
  such an answer as the effects that reach the sink; the theorems compare what the code
  issues with them. \<open>batch_sizes b n\<close> are the sizes of the batches that delete \<open>n\<close>
  characters: full batches of \<open>b\<close>, then the rest.
\<close>

definition backspaces :: "nat \<Rightarrow> effect list" where
  "backspaces n = replicate n (Press ''backspace'')"

definition batch_sizes :: "nat \<Rightarrow> nat \<Rightarrow> nat list" where
  "batch_sizes b n = replicate (n div b) b @ (if n mod b = 0 then [] else [n mod b])"

fun sleep_between :: "effect list list \<Rightarrow> effect list" where
  "sleep_between [] = []"
| "sleep_between [b] = b"
| "sleep_between (b # bs) = b @ Sleep # sleep_between bs"

definition batched_deletion :: "nat \<Rightarrow> nat \<Rightarrow> effect list" where
  "batched_deletion b n = sleep_between (map backspaces (batch_sizes b n))"

definition planned_edits :: "nat \<Rightarrow> string \<Rightarrow> string \<Rightarrow> effect list" where
  "planned_edits b old new =
     (if new = old then []
      else if prefix old new then [Typewrite (drop (length old) new)]
      else batched_deletion b (length old) @ (if new = [] then [] else [Typewrite new]))"

section \<open>Auxiliary notions for the proofs\<close>

text \<open>A sink none of whose calls raises.\<close>

definition never_raises :: "env \<Rightarrow> bool" where
  "never_raises w = (\<forall>k. \<not> raises w k)"

text \<open>
  Concrete inputs: the default settings of \<^verbatim>\<open>RealtimeSettings\<close> with real-time typing
  switched on, a sink that has been issued nothing and never raises, and one whose first
  call raises.
\<close>

definition echo_config :: config where
  "echo_config =
     \<lparr>realtime_typing = True, max_backspaces_per_update = 512,
      finalize_suppress_window = 1 / 2\<rparr>"

definition quiet_env :: env where
  "quiet_env = \<lparr>issued = [], raises = (\<lambda>k. False)\<rparr>"

definition broken_env :: env where
  "broken_env = \<lparr>issued = [], raises = (\<lambda>k. k = 0)\<rparr>"

text \<open>A string starts (ends) clean when its first (last) character, if any, fails \<open>p\<close>.\<close>

definition starts_clean :: "(char \<Rightarrow> bool) \<Rightarrow> string \<Rightarrow> bool" where
  "starts_clean p s = (s = [] \<or> \<not> p (hd s))"

definition ends_clean :: "(char \<Rightarrow> bool) \<Rightarrow> string \<Rightarrow> bool" where
  "ends_clean p s = (s = [] \<or> \<not> p (last s))"


section \<open>Properties of the normalizer\<close>

subsection \<open>Characters\<close>

lemma punct_code:
  "(c = CHR ''.'') = (of_char c = (46::nat))"
  "(c = CHR ''!'') = (of_char c = (33::nat))"
  "(c = CHR ''?'') = (of_char c = (63::nat))"
proof -
  have "of_char CHR ''.'' = (46::nat)" "of_char CHR ''!'' = (33::nat)"
    "of_char CHR ''?'' = (63::nat)"
    by simp_all
  then show "(c = CHR ''.'') = (of_char c = (46::nat))"
    "(c = CHR ''!'') = (of_char c = (33::nat))"
    "(c = CHR ''?'') = (of_char c = (63::nat))"
    by (metis of_char_eq_iff)+
qed

lemma of_char_lower_char:
  "(of_char (lower_char c) :: nat) =
     (if isupper_code (of_char c) then of_char c + 32 else of_char c)"
proof (cases "isupper_code (of_char c)")
  case True
  then have "(of_char c :: nat) + 32 < 256" by (auto simp: isupper_code_def)
  then have "(of_char c + 32) mod 256 = (of_char c :: nat) + 32" by simp
  with True show ?thesis by (simp add: lower_char_def)
next
  case False
  then show ?thesis by (simp add: lower_char_def)
qed

lemma isspace_lower_char: "isspace (lower_char c) = isspace c"
  unfolding isspace_def of_char_lower_char by (auto simp: isupper_code_def)

lemma lower_char_idem: "lower_char (lower_char c) = lower_char c"
proof -
  have "(of_char (lower_char (lower_char c)) :: nat) = of_char (lower_char c)"
    unfolding of_char_lower_char [of "lower_char c"]
    unfolding of_char_lower_char [of c]
    by (auto simp: isupper_code_def)
  then show ?thesis by (metis of_char_eq_iff)
qed

lemma lower_char_space: "lower_char CHR '' '' = CHR '' ''"
  by code_simp

lemma isspace_space: "isspace CHR '' ''"
  by (simp add: isspace_def)

lemma isspace_trailing_class: "isspace c \<Longrightarrow> trailing_class c"
  by (simp add: trailing_class_def)

subsection \<open>Strings with a clean start or end\<close>

lemma dropWhile_clean: "starts_clean p s \<Longrightarrow> dropWhile p s = s"
  by (cases s) (auto simp: starts_clean_def)

lemma rstrip_while_clean: "ends_clean p s \<Longrightarrow> rstrip_while p s = s"
proof -
  assume "ends_clean p s"
  then have "starts_clean p (rev s)"
    by (auto simp: ends_clean_def starts_clean_def hd_rev)
  then show ?thesis
    by (simp add: rstrip_while_def dropWhile_clean)
qed

lemma starts_clean_dropWhile: "starts_clean p (dropWhile p s)"
  using hd_dropWhile [of p s] by (auto simp: starts_clean_def)

lemma ends_clean_rstrip_while: "ends_clean p (rstrip_while p s)"
  using hd_dropWhile [of p "rev s"]
  by (auto simp: ends_clean_def rstrip_while_def last_rev)

lemma rstrip_while_decomp: "s = rstrip_while p s @ rev (takeWhile p (rev s))"
proof -
  have "rev (takeWhile p (rev s) @ dropWhile p (rev s)) = s"
    by (simp only: takeWhile_dropWhile_id rev_rev_ident)
  then show ?thesis by (simp only: rstrip_while_def rev_append)
qed

lemma starts_clean_rstrip_while:
  assumes "starts_clean q s"
  shows "starts_clean q (rstrip_while p s)"
proof (cases "rstrip_while p s = []")
  case True
  then show ?thesis by (simp add: starts_clean_def)
next
  case False
  then have "hd s = hd (rstrip_while p s)"
    using rstrip_while_decomp [of s p] by (metis hd_append2)
  moreover from False have "s \<noteq> []"
    by (auto simp: rstrip_while_def)
  ultimately show ?thesis using assms by (simp add: starts_clean_def)
qed

lemma ends_clean_weaken: "(\<And>c. q c \<Longrightarrow> p c) \<Longrightarrow> ends_clean p s \<Longrightarrow> ends_clean q s"
  by (auto simp: ends_clean_def)

lemma starts_clean_lower: "starts_clean isspace (lower s) = starts_clean isspace s"
  by (cases s) (auto simp: starts_clean_def lower_def isspace_lower_char)

lemma lower_idem: "lower (lower s) = lower s"
  by (simp add: lower_def lower_char_idem)

lemma lower_fixed_iff: "lower s = s \<longleftrightarrow> (\<forall>c\<in>set s. lower_char c = c)"
  by (simp add: lower_def map_eq_conv [where g = id, simplified])

lemma set_rstrip_while: "set (rstrip_while p s) \<subseteq> set s"
  by (auto simp: rstrip_while_def dest: set_dropWhileD)

lemma lower_rstrip_while: "lower s = s \<Longrightarrow> lower (rstrip_while p s) = rstrip_while p s"
  using set_rstrip_while [of p s] by (auto simp: lower_fixed_iff)

lemma strip_clean: "starts_clean isspace s \<Longrightarrow> ends_clean isspace s \<Longrightarrow> strip s = s"
  by (simp add: strip_def dropWhile_clean rstrip_while_clean)

lemma strip_is_clean: "starts_clean isspace (strip s)" "ends_clean isspace (strip s)"
  by (simp_all add: strip_def starts_clean_rstrip_while starts_clean_dropWhile
      ends_clean_rstrip_while)

lemma strip_all_space:
  assumes "\<forall>c\<in>set s. isspace c"
  shows "strip s = []"
proof -
  from assms have d: "dropWhile isspace s = []" by simp
  show ?thesis unfolding strip_def rstrip_while_def d by simp
qed

subsection \<open>Collapsing whitespace\<close>

lemma collapse_spaces_Nil_iff: "collapse_spaces s = [] \<longleftrightarrow> s = []"
  by (cases s) auto

lemma starts_clean_collapse:
  "starts_clean isspace s \<Longrightarrow> starts_clean isspace (collapse_spaces s)"
  by (cases s) (auto simp: starts_clean_def)

lemma collapse_spaces_idem: "collapse_spaces (collapse_spaces s) = collapse_spaces s"
proof (induction s rule: collapse_spaces.induct)
  case 1
  show ?case by simp
next
  case (2 c cs)
  show ?case
  proof (cases "isspace c")
    case True
    have "starts_clean isspace (collapse_spaces (dropWhile isspace cs))"
      by (rule starts_clean_collapse) (rule starts_clean_dropWhile)
    then have "dropWhile isspace (collapse_spaces (dropWhile isspace cs))
      = collapse_spaces (dropWhile isspace cs)"
      by (rule dropWhile_clean)
    with True isspace_space 2 show ?thesis by simp
  next
    case False
    with 2 show ?thesis by simp
  qed
qed

lemma last_dropWhile: "dropWhile p s \<noteq> [] \<Longrightarrow> last (dropWhile p s) = last s"
  by (induction s) (auto split: if_splits)

lemma ends_clean_collapse:
  assumes sub: "\<And>c. isspace c \<Longrightarrow> p c"
  shows "ends_clean p s \<Longrightarrow> ends_clean p (collapse_spaces s)"
proof (induction s rule: collapse_spaces.induct)
  case 1
  show ?case by (simp add: ends_clean_def)
next
  case (2 c cs)
  show ?case
  proof (cases "isspace c")
    case True
    show ?thesis
    proof (cases "dropWhile isspace cs = []")
      case Nil: True
      then have "\<forall>x\<in>set cs. isspace x" by simp
      with True have "isspace (last (c # cs))" by (cases cs) auto
      with sub have "p (last (c # cs))" by blast
      with 2(3) show ?thesis by (simp add: ends_clean_def)
    next
      case False
      then have cs: "cs \<noteq> []" by auto
      from False have "last (dropWhile isspace cs) = last cs" by (rule last_dropWhile)
      with 2(3) cs False have "ends_clean p (dropWhile isspace cs)"
        by (simp add: ends_clean_def)
      with 2(1) True have "ends_clean p (collapse_spaces (dropWhile isspace cs))" by simp
      with True False show ?thesis
        by (auto simp: ends_clean_def collapse_spaces_Nil_iff)
    qed
  next
    case False
    show ?thesis
    proof (cases "cs = []")
      case True
      with False 2(3) show ?thesis by (simp add: ends_clean_def)
    next
      case ne: False
      with 2(3) have "ends_clean p cs" by (simp add: ends_clean_def)
      with 2(2) False have "ends_clean p (collapse_spaces cs)" by simp
      with False ne show ?thesis by (simp add: ends_clean_def collapse_spaces_Nil_iff)
    qed
  qed
qed

lemma set_collapse_spaces: "set (collapse_spaces s) \<subseteq> insert CHR '' '' (set s)"
proof (induction s rule: collapse_spaces.induct)
  case 1
  show ?case by simp
next
  case (2 c cs)
  have "set (dropWhile isspace cs) \<subseteq> set cs" by (auto dest: set_dropWhileD)
  with 2 show ?case by (cases "isspace c") auto
qed

lemma lower_collapse:
  assumes "lower s = s"
  shows "lower (collapse_spaces s) = collapse_spaces s"
proof -
  from assms have "\<forall>c\<in>set s. lower_char c = c"
    by (simp add: lower_fixed_iff)
  with set_collapse_spaces [of s] lower_char_space
  have "\<forall>c\<in>set (collapse_spaces s). lower_char c = c" by auto
  then show ?thesis by (simp add: lower_fixed_iff)
qed

subsection \<open>Idempotence\<close>

lemma normalize_text_fixed:
  assumes "starts_clean isspace r" "ends_clean trailing_class r" "lower r = r"
    "collapse_spaces r = r"
  shows "normalize_text r = r"
proof -
  from assms(2) have "ends_clean isspace r"
    by (rule ends_clean_weaken [rotated]) (rule isspace_trailing_class)
  with assms(1) have "strip r = r" by (rule strip_clean)
  moreover from assms(2) have "rstrip_while trailing_class r = r" by (rule rstrip_while_clean)
  ultimately show ?thesis using assms(3,4) by (simp add: normalize_text_def)
qed

text \<open>
  Claim C9: \<^verbatim>\<open>normalize\<close> is idempotent; normalizing a normalized string (trimmed,
  lowercased, trailing \<^verbatim>\<open>.\<close>, \<^verbatim>\<open>!\<close>, \<^verbatim>\<open>?\<close> and whitespace stripped, whitespace runs
  collapsed) changes nothing.
\<close>

theorem normalize_idempotent: "normalize_text (normalize_text s) = normalize_text s"
proof -
  define u where "u = lower (strip s)"
  define t where "t = rstrip_while trailing_class u"
  have r: "normalize_text s = collapse_spaces t" by (simp add: normalize_text_def u_def t_def)
  have "starts_clean isspace u" by (simp add: u_def starts_clean_lower strip_is_clean)
  then have t1: "starts_clean isspace t" unfolding t_def by (rule starts_clean_rstrip_while)
  have t2: "ends_clean trailing_class t" unfolding t_def by (rule ends_clean_rstrip_while)
  have "lower u = u" by (simp add: u_def lower_idem)
  then have t3: "lower t = t" unfolding t_def by (rule lower_rstrip_while)
  have "normalize_text (collapse_spaces t) = collapse_spaces t"
  proof (rule normalize_text_fixed)
    show "starts_clean isspace (collapse_spaces t)" using t1 by (rule starts_clean_collapse)
    show "ends_clean trailing_class (collapse_spaces t)"
      using t2 by (rule ends_clean_collapse [rotated]) (rule isspace_trailing_class)
    show "lower (collapse_spaces t) = collapse_spaces t" using t3 by (rule lower_collapse)
    show "collapse_spaces (collapse_spaces t) = collapse_spaces t" by (rule collapse_spaces_idem)
  qed
  with r show ?thesis by simp
qed

section \<open>The typing manager on a sink that does not raise\<close>

lemma never_raises_issued [simp]: "never_raises (w\<lparr>issued := xs\<rparr>) = never_raises w"
  by (simp add: never_raises_def)

lemma sink_call_ok:
  "never_raises w \<Longrightarrow> sink_call e w = (False, w\<lparr>issued := issued w @ [e]\<rparr>)"
  by (simp add: sink_call_def never_raises_def)

lemma press_backspaces_ok:
  "never_raises w \<Longrightarrow> press_backspaces n w = (False, w\<lparr>issued := issued w @ backspaces n\<rparr>)"
proof (induction n arbitrary: w)
  case 0
  then show ?case by (simp add: backspaces_def)
next
  case (Suc n)
  from Suc.prems have "never_raises (w\<lparr>issued := issued w @ [Press ''backspace'']\<rparr>)" by simp
  from Suc.IH [OF this] Suc.prems show ?case
    by (simp add: sink_call_ok backspaces_def replicate_app_Cons_same)
qed

lemma batch_sizes_small: "0 < n \<Longrightarrow> n \<le> b \<Longrightarrow> batch_sizes b n = [n]"
  by (cases "n = b") (auto simp: batch_sizes_def)

lemma batch_sizes_step:
  assumes "0 < b" "b < n"
  shows "batch_sizes b n = b # batch_sizes b (n - b)"
proof -
  from assms have "n div b = Suc ((n - b) div b)" by (simp add: le_div_geq)
  moreover from assms have "n mod b = (n - b) mod b" by (simp add: le_mod_geq)
  ultimately show ?thesis by (simp add: batch_sizes_def)
qed

lemma batch_sizes_nonempty: "0 < b \<Longrightarrow> 0 < n \<Longrightarrow> batch_sizes b n \<noteq> []"
  by (cases "n \<le> b") (simp_all add: batch_sizes_small batch_sizes_step)

lemma batched_deletion_small: "0 < n \<Longrightarrow> n \<le> b \<Longrightarrow> batched_deletion b n = backspaces n"
  by (simp add: batched_deletion_def batch_sizes_small)

lemma batched_deletion_step:
  assumes "0 < b" "b < n"
  shows "batched_deletion b n = backspaces b @ Sleep # batched_deletion b (n - b)"
proof -
  from assms have "batch_sizes b (n - b) \<noteq> []" by (simp add: batch_sizes_nonempty)
  then obtain x xs where "batch_sizes b (n - b) = x # xs" by (cases "batch_sizes b (n - b)") auto
  with assms show ?thesis by (simp add: batched_deletion_def batch_sizes_step)
qed

lemma backspace_loop_ok:
  assumes "0 < B"
  shows "never_raises w \<Longrightarrow> 0 < n \<Longrightarrow>
    backspace_loop B (int n) w = Some (False, w\<lparr>issued := issued w @ batched_deletion (nat B) n\<rparr>)"
proof (induction n arbitrary: w rule: less_induct)
  case (less n)
  show ?case
  proof (cases "int n \<le> B")
    case True
    then have m: "min (int n) B = int n" by simp
    from True less.prems have "n \<le> nat B" by simp
    with less.prems have bd: "batched_deletion (nat B) n = backspaces n"
      by (simp add: batched_deletion_small)
    show ?thesis
      using less.prems
      by (subst backspace_loop.simps, subst backspace_loop.simps)
         (simp add: m Let_def press_backspaces_ok bd)
  next
    case False
    then have m: "min (int n) B = B" by simp
    from False assms have lt: "nat B < n" by simp
    with assms have bd: "batched_deletion (nat B) n
        = backspaces (nat B) @ Sleep # batched_deletion (nat B) (n - nat B)"
      by (simp add: batched_deletion_step)
    from assms lt have rem: "int n - B = int (n - nat B)" by simp
    let ?w = "w\<lparr>issued := issued w @ backspaces (nat B) @ [Sleep]\<rparr>"
    from less.prems have nr: "never_raises ?w" by simp
    from assms lt have "n - nat B < n" "0 < n - nat B" by simp_all
    from less.IH [OF this(1) nr this(2)]
    have "backspace_loop B (int (n - nat B)) ?w
      = Some (False, ?w\<lparr>issued := issued ?w @ batched_deletion (nat B) (n - nat B)\<rparr>)" .
    with less.prems False lt show ?thesis
      by (subst backspace_loop.simps)
         (simp add: m Let_def press_backspaces_ok bd rem sleep_def)
  qed
qed


lemma backspace_loop_diverges:
  assumes "B \<le> 0" "0 < r"
  shows "backspace_loop B r w = None"
proof (rule ccontr)
  assume "backspace_loop B r w \<noteq> None"
  then obtain y where y: "backspace_loop B r w = Some y" by auto
  have "\<not> (B \<le> 0 \<and> 0 < r)"
  proof (rule backspace_loop.raw_induct [where P = "\<lambda>B r w y. \<not> (B \<le> 0 \<and> 0 < r)", OF _ y])
    fix f :: "int \<Rightarrow> int \<Rightarrow> env \<Rightarrow> (bool \<times> env) option" and B r w y
    assume IH: "\<And>B r w y. f B r w = Some y \<Longrightarrow> \<not> (B \<le> 0 \<and> 0 < r)"
      and body: "(if 0 < r
        then let batch_size = min r B; ra = press_backspaces (nat batch_size) w
             in if fst ra then Some (True, snd ra)
                else f B (r - batch_size) (if 0 < r - batch_size then sleep (snd ra) else snd ra)
        else Some (False, w)) = Some y"
    show "\<not> (B \<le> 0 \<and> 0 < r)"
    proof
      assume a: "B \<le> 0 \<and> 0 < r"
      then have "min r B = B" "nat B = 0" by simp_all
      with a body have "f B (r - B) (sleep w) = Some y" by (simp add: Let_def)
      from IH [OF this] a show False by simp
    qed
  qed
  with assms show False by simp
qed

lemma replace_typed_text_ok:
  assumes "0 < max_backspaces_per_update cfg" "never_raises w"
  shows "replace_typed_text cfg old new w =
    Some (False, w\<lparr>issued := issued w @
      batched_deletion (nat (max_backspaces_per_update cfg)) (length old) @
      (if new = [] then [] else [Typewrite new])\<rparr>)"
proof (cases "old = []")
  case True
  have "batched_deletion (nat (max_backspaces_per_update cfg)) 0 = []"
    by (simp add: batched_deletion_def batch_sizes_def)
  with True assms show ?thesis
    by (simp add: replace_typed_text_def sink_call_ok)
next
  case False
  then have "0 < length old" by simp
  from backspace_loop_ok [OF assms(1) assms(2) this] assms False show ?thesis
    by (simp add: replace_typed_text_def sink_call_ok)
qed

lemma type_realtime_text_append:
  assumes "sfx \<noteq> []" "never_raises w"
  shows "type_realtime_text cfg (last_typed_text m @ sfx) (m, w) =
    Some (m\<lparr>last_typed_text := last_typed_text m @ sfx\<rparr>,
          w\<lparr>issued := issued w @ [Typewrite sfx]\<rparr>)"
  using assms by (simp add: type_realtime_text_def sink_call_ok)

lemma type_realtime_text_replace:
  assumes "0 < max_backspaces_per_update cfg" "never_raises w" "text \<noteq> []"
    "\<not> prefix (last_typed_text m) text"
  shows "type_realtime_text cfg text (m, w) =
    Some (m\<lparr>last_typed_text := text\<rparr>,
          w\<lparr>issued := issued w @
            batched_deletion (nat (max_backspaces_per_update cfg)) (length (last_typed_text m)) @
            [Typewrite text]\<rparr>)"
proof -
  from assms(4) have "text \<noteq> last_typed_text m" by auto
  with assms show ?thesis
    by (simp add: type_realtime_text_def replace_typed_text_ok)
qed

lemma nonpositive_batch_never_returns:
  assumes "max_backspaces_per_update cfg \<le> 0" and "text \<noteq> []"
    and "\<not> prefix (last_typed_text m) text"
  shows "type_realtime_text cfg text (m, w) = None"
proof -
  from assms(3) have "last_typed_text m \<noteq> []" "text \<noteq> last_typed_text m" by auto
  with assms show ?thesis
    by (simp add: type_realtime_text_def replace_typed_text_def backspace_loop_diverges)
qed

lemma type_realtime_text_planned:
  assumes "0 < max_backspaces_per_update cfg" "never_raises w" "text \<noteq> []"
  shows "type_realtime_text cfg text (m, w) =
    Some (m\<lparr>last_typed_text := text\<rparr>,
          w\<lparr>issued := issued w @
            planned_edits (nat (max_backspaces_per_update cfg)) (last_typed_text m) text\<rparr>)"
proof (cases "text = last_typed_text m")
  case True
  then show ?thesis using assms by (simp add: type_realtime_text_def planned_edits_def)
next
  case ne: False
  show ?thesis
  proof (cases "prefix (last_typed_text m) text")
    case True
    then obtain sfx where s: "text = last_typed_text m @ sfx" by (auto simp: prefix_def)
    with ne have "sfx \<noteq> []" by auto
    from type_realtime_text_append [OF this assms(2), of cfg m] s ne True show ?thesis
      by (simp add: planned_edits_def)
  next
    case False
    from type_realtime_text_replace [OF assms False] ne False assms(3) show ?thesis
      by (simp add: planned_edits_def)
  qed
qed

lemma finalize_realtime_text_planned:
  assumes "0 < max_backspaces_per_update cfg" "never_raises w"
  shows "finalize_realtime_text cfg now final_text (m, w) =
    Some (True,
          m\<lparr>last_typed_text := [], last_finalized_text := final_text,
            suppress_realtime_until := now + finalize_suppress_window cfg\<rparr>,
          w\<lparr>issued := issued w @
            planned_edits (nat (max_backspaces_per_update cfg)) (last_typed_text m)
              (final_text @ '' '')\<rparr>)"
proof (cases "prefix (last_typed_text m) (final_text @ '' '')")
  case True
  then obtain sfx where s: "final_text @ '' '' = last_typed_text m @ sfx"
    by (auto simp: prefix_def)
  then have d: "drop (length (last_typed_text m)) (final_text @ '' '') = sfx"
    by (metis append_eq_conv_conj)
  show ?thesis
  proof (cases "sfx = []")
    case True
    with s have "final_text @ '' '' = last_typed_text m" by simp
    then show ?thesis
      by (simp add: finalize_realtime_text_def planned_edits_def Let_def del: append_eq_append_conv2)
  next
    case False
    with s have "final_text @ '' '' \<noteq> last_typed_text m" by auto
    with True False d assms show ?thesis
      by (simp add: finalize_realtime_text_def planned_edits_def Let_def sink_call_ok)
  qed
next
  case False
  then have "final_text @ '' '' \<noteq> last_typed_text m" by auto
  with False assms show ?thesis
    by (simp add: finalize_realtime_text_def planned_edits_def Let_def replace_typed_text_ok)
qed

section \<open>Claims about the edit planner\<close>

text \<open>
  Claim C1: when the new text is the old live text followed by a non-empty suffix,
  \<^verbatim>\<open>_type_realtime_text\<close> issues exactly one \<^verbatim>\<open>typewrite\<close> of that suffix, which is
  \<^verbatim>\<open>new[len(old):]\<close>, and no deletion, and stores the new text in \<^verbatim>\<open>last_typed_text\<close>;
  the sink call is one that does not raise.
\<close>

theorem append_types_suffix:
  assumes "sfx \<noteq> []" and "\<not> raises w (length (issued w))" and "last_typed_text m = old"
  shows "type_realtime_text cfg (old @ sfx) (m, w) =
           Some (m\<lparr>last_typed_text := old @ sfx\<rparr>, w\<lparr>issued := issued w @ [Typewrite sfx]\<rparr>)
         \<and> drop (length old) (old @ sfx) = sfx"
  using assms by (simp add: type_realtime_text_def sink_call_def)

theorem append_types_suffix_witness:
  "''ld'' \<noteq> [] \<and> \<not> raises quiet_env (length (issued quiet_env))
   \<and> type_realtime_text echo_config ''Hello world''
         (init_manager\<lparr>last_typed_text := ''Hello wor''\<rparr>, quiet_env) =
       Some (init_manager\<lparr>last_typed_text := ''Hello world''\<rparr>,
             quiet_env\<lparr>issued := [Typewrite ''ld'']\<rparr>)"
  using append_types_suffix [of "''ld''" quiet_env "init_manager\<lparr>last_typed_text := ''Hello wor''\<rparr>"
      "''Hello wor''" echo_config]
  by (simp add: quiet_env_def)

subsection \<open>Batches\<close>

lemma sum_list_batch_sizes: "sum_list (batch_sizes b n) = n"
  by (auto simp: batch_sizes_def sum_list_replicate mod_eq_0_iff_dvd)

lemma batch_sizes_bounded: "0 < b \<Longrightarrow> k \<in> set (batch_sizes b n) \<Longrightarrow> 0 < k \<and> k \<le> b"
  by (auto simp: batch_sizes_def split: if_splits intro: less_imp_le)

lemma neg_div_ceiling:
  assumes "0 < b"
  shows "- (- int n div int b) = int (n div b) + (if n mod b = 0 then 0 else 1)"
proof -
  from assms have "int b \<noteq> 0" by simp
  then have "- int n div int b =
      (if int n mod int b = 0 then - (int n div int b) else - (int n div int b) - 1)"
    by (rule zdiv_zminus1_eq_if)
  moreover have "int n mod int b = int (n mod b)" "int n div int b = int (n div b)"
    by (simp_all add: zmod_int zdiv_int)
  ultimately show ?thesis by simp
qed

lemma length_batch_sizes:
  assumes "0 < b"
  shows "int (length (batch_sizes b n)) = \<lceil>real n / real b\<rceil>"
proof -
  have "\<lceil>real n / real b\<rceil> = \<lceil>of_int (int n) / (of_int (int b) :: real)\<rceil>" by simp
  also have "\<dots> = - (- int n div int b)" by (rule ceiling_divide_eq_div)
  also have "\<dots> = int (n div b) + (if n mod b = 0 then 0 else 1)"
    using assms by (rule neg_div_ceiling)
  finally show ?thesis by (simp add: batch_sizes_def)
qed

lemma deletions_of_batched: 
  assumes "0 < b"
  shows "filter (\<lambda>e. e \<noteq> Sleep) (batched_deletion b n) = backspaces n"
proof (induction n rule: less_induct)
  case (less n)
  show ?case
  proof (cases "n \<le> b")
    case True
    show ?thesis
    proof (cases "n = 0")
      case True
      then show ?thesis by (simp add: batched_deletion_def batch_sizes_def backspaces_def)
    next
      case False
      with True show ?thesis by (simp add: batched_deletion_small) (simp add: backspaces_def)
    qed
  next
    case False
    with assms have "n - b < n" by simp
    from less.IH [OF this] False assms show ?thesis
      by (simp add: batched_deletion_step) (simp add: backspaces_def flip: replicate_add)
  qed
qed


text \<open>
  Claim C2 as the specification states it: for every old and new text such that the new
  one does not start with the old one, the planner deletes \<open>len(old)\<close> characters in
  batches of at most \<^verbatim>\<open>max_backspaces_per_update\<close> and then inserts the new text. It fails
  for the empty new text, which \<^verbatim>\<open>_type_realtime_text\<close> ignores at its first guard, so
  that nothing is deleted; and with a batch size of zero, which the configuration may
  hold, the deletion never ends.
\<close>

theorem empty_new_text_is_no_replace:
  "\<not> prefix ''Hello'' [] \<and> [] \<noteq> ''Hello''
   \<and> type_realtime_text echo_config []
        (init_manager\<lparr>last_typed_text := ''Hello''\<rparr>, quiet_env) =
       Some (init_manager\<lparr>last_typed_text := ''Hello''\<rparr>, quiet_env)
   \<and> issued quiet_env = []
   \<and> backspaces (length ''Hello'') \<noteq> []
   \<and> type_realtime_text (echo_config\<lparr>max_backspaces_per_update := 0\<rparr>) ''Bye''
        (init_manager\<lparr>last_typed_text := ''Hello''\<rparr>, quiet_env) = None"
proof -
  have "type_realtime_text (echo_config\<lparr>max_backspaces_per_update := 0\<rparr>) ''Bye''
        (init_manager\<lparr>last_typed_text := ''Hello''\<rparr>, quiet_env) = None"
    by (rule nonpositive_batch_never_returns) simp_all
  then show ?thesis
    by (simp add: type_realtime_text_def quiet_env_def backspaces_def)
qed

text \<open>
  Claim C2, amended: when the new text is not empty and does not start with the old live
  text, the planner presses backspace \<open>len(old)\<close> times, in \<open>ceil(len(old) / B)\<close>
  consecutive batches of at most \<open>B\<close> presses with a pause between two batches, and then
  types the new text once, in this order. \<open>B\<close> is a positive
  \<^verbatim>\<open>max_backspaces_per_update\<close> and no sink call raises. \<^verbatim>\<open>_replace_typed_text\<close> itself does
  the same for any new text \<open>new'\<close>, typing nothing after the deletion when that is empty.
\<close>

theorem replace_deletes_in_batches:
  assumes "0 < max_backspaces_per_update cfg" and "never_raises w"
    and "new \<noteq> []" and "\<not> prefix old new" and "last_typed_text m = old"
    and "b = nat (max_backspaces_per_update cfg)" and "n = length old"
  shows "type_realtime_text cfg new (m, w) =
           Some (m\<lparr>last_typed_text := new\<rparr>,
                 w\<lparr>issued := issued w @ sleep_between (map backspaces (batch_sizes b n)) @
                                [Typewrite new]\<rparr>)
         \<and> replace_typed_text cfg old new' w =
           Some (False,
                 w\<lparr>issued := issued w @ sleep_between (map backspaces (batch_sizes b n)) @
                                (if new' = [] then [] else [Typewrite new'])\<rparr>)
         \<and> sum_list (batch_sizes b n) = n
         \<and> (\<forall>k\<in>set (batch_sizes b n). 0 < k \<and> k \<le> b)
         \<and> int (length (batch_sizes b n)) = \<lceil>real n / real b\<rceil>
         \<and> filter (\<lambda>e. e \<noteq> Sleep) (sleep_between (map backspaces (batch_sizes b n))) =
             backspaces n"
proof -
  from assms have b: "0 < b" by simp
  have 1: "type_realtime_text cfg new (m, w) =
      Some (m\<lparr>last_typed_text := new\<rparr>,
            w\<lparr>issued := issued w @ sleep_between (map backspaces (batch_sizes b n)) @
              [Typewrite new]\<rparr>)"
    using type_realtime_text_replace [of cfg w new m] assms
    by (simp add: batched_deletion_def)
  have 2: "replace_typed_text cfg old new' w =
      Some (False,
            w\<lparr>issued := issued w @ sleep_between (map backspaces (batch_sizes b n)) @
              (if new' = [] then [] else [Typewrite new'])\<rparr>)"
    using replace_typed_text_ok [of cfg w old new'] assms
    by (simp add: batched_deletion_def)
  have 3: "sum_list (batch_sizes b n) = n" by (rule sum_list_batch_sizes)
  have 4: "\<forall>k\<in>set (batch_sizes b n). 0 < k \<and> k \<le> b"
    using batch_sizes_bounded [OF b] by blast
  have 5: "int (length (batch_sizes b n)) = \<lceil>real n / real b\<rceil>"
    using b by (rule length_batch_sizes)
  have 6: "filter (\<lambda>e. e \<noteq> Sleep) (sleep_between (map backspaces (batch_sizes b n))) =
      backspaces n"
    using deletions_of_batched [OF b, of n] by (simp add: batched_deletion_def)
  from 1 2 3 4 5 6 show ?thesis by blast
qed

theorem replace_deletes_in_batches_witness:
  "0 < max_backspaces_per_update (echo_config\<lparr>max_backspaces_per_update := 2\<rparr>)
   \<and> never_raises quiet_env \<and> ''Bye'' \<noteq> [] \<and> \<not> prefix ''Hello'' ''Bye''
   \<and> type_realtime_text (echo_config\<lparr>max_backspaces_per_update := 2\<rparr>) ''Bye''
         (init_manager\<lparr>last_typed_text := ''Hello''\<rparr>, quiet_env) =
       Some (init_manager\<lparr>last_typed_text := ''Bye''\<rparr>,
             quiet_env\<lparr>issued :=
               [Press ''backspace'', Press ''backspace'', Sleep,
                Press ''backspace'', Press ''backspace'', Sleep,
                Press ''backspace'', Typewrite ''Bye'']\<rparr>)
   \<and> batch_sizes 2 5 = [2, 2, 1]"
proof -
  have nr: "never_raises quiet_env" by (simp add: never_raises_def quiet_env_def)
  have np: "\<not> prefix ''Hello'' ''Bye''" by simp
  have ev: "sleep_between (map backspaces (batch_sizes 2 5)) =
      [Press ''backspace'', Press ''backspace'', Sleep,
       Press ''backspace'', Press ''backspace'', Sleep, Press ''backspace'']"
    by code_simp
  have bs: "batch_sizes 2 5 = [2, 2, 1]" by code_simp
  from replace_deletes_in_batches [of "echo_config\<lparr>max_backspaces_per_update := 2\<rparr>"
      quiet_env "''Bye''" "''Hello''" "init_manager\<lparr>last_typed_text := ''Hello''\<rparr>" 2 5
      "''Bye''"]
    nr np
  have "type_realtime_text (echo_config\<lparr>max_backspaces_per_update := 2\<rparr>) ''Bye''
         (init_manager\<lparr>last_typed_text := ''Hello''\<rparr>, quiet_env) =
       Some (init_manager\<lparr>last_typed_text := ''Hello'', last_typed_text := ''Bye''\<rparr>,
             quiet_env\<lparr>issued := issued quiet_env @
               sleep_between (map backspaces (batch_sizes 2 5)) @ [Typewrite ''Bye'']\<rparr>)"
    by simp
  with ev nr np bs show ?thesis by (simp add: quiet_env_def)
qed

section \<open>Claims about empty and blank text\<close>

lemma strip_Nil_iff: "strip s = [] \<longleftrightarrow> (\<forall>c\<in>set s. isspace c)"
proof
  assume "strip s = []"
  then have "\<forall>x\<in>set (dropWhile isspace s). isspace x"
    by (simp add: strip_def rstrip_while_def)
  then have "dropWhile isspace s = []"
    using hd_dropWhile [of isspace s] by (cases "dropWhile isspace s") auto
  then show "\<forall>c\<in>set s. isspace c" by simp
next
  assume "\<forall>c\<in>set s. isspace c"
  then show "strip s = []" by (rule strip_all_space)
qed

text \<open>
  Claim C8 as the specification states it: for the empty string as new text and a
  non-empty live text, the planner deletes every character of the live text. It fails:
  \<^verbatim>\<open>_type_realtime_text\<close> returns at \<^verbatim>\<open>if not text\<close> and issues nothing.
\<close>

theorem empty_text_deletes_nothing:
  "type_realtime_text echo_config [] (init_manager\<lparr>last_typed_text := ''Hi''\<rparr>, quiet_env) =
     Some (init_manager\<lparr>last_typed_text := ''Hi''\<rparr>, quiet_env)
   \<and> issued quiet_env = []
   \<and> issued quiet_env \<noteq> backspaces (length ''Hi'')"
  by (simp add: type_realtime_text_def quiet_env_def backspaces_def)

text \<open>
  Claim C8, amended: for the empty string as new text \<^verbatim>\<open>_type_realtime_text\<close> returns at
  once, whatever the live text is: nothing is deleted, nothing is typed and
  \<^verbatim>\<open>last_typed_text\<close> keeps the old text. Only the helper \<^verbatim>\<open>_replace_typed_text\<close>, called on
  its own with an empty new text, a positive batch size and a sink that does not raise,
  presses backspace \<open>len(old)\<close> times (in batches) and types nothing.
\<close>

theorem empty_text_is_ignored:
  "type_realtime_text cfg [] (m, w) = Some (m, w)
   \<and> (0 < max_backspaces_per_update cfg \<and> never_raises w \<longrightarrow>
        replace_typed_text cfg old [] w =
          Some (False,
                w\<lparr>issued := issued w @
                  batched_deletion (nat (max_backspaces_per_update cfg)) (length old)\<rparr>)
        \<and> filter (\<lambda>e. e \<noteq> Sleep)
              (batched_deletion (nat (max_backspaces_per_update cfg)) (length old)) =
            backspaces (length old))"
proof -
  have "type_realtime_text cfg [] (m, w) = Some (m, w)"
    by (simp add: type_realtime_text_def)
  moreover have "replace_typed_text cfg old [] w =
      Some (False,
            w\<lparr>issued := issued w @
              batched_deletion (nat (max_backspaces_per_update cfg)) (length old)\<rparr>)"
    if "0 < max_backspaces_per_update cfg" "never_raises w"
    using replace_typed_text_ok [OF that, of old "[]"] by simp
  moreover have "filter (\<lambda>e. e \<noteq> Sleep)
        (batched_deletion (nat (max_backspaces_per_update cfg)) (length old)) =
      backspaces (length old)"
    if "0 < max_backspaces_per_update cfg"
    using that by (intro deletions_of_batched) simp
  ultimately show ?thesis by blast
qed

theorem empty_text_is_ignored_witness:
  "type_realtime_text echo_config [] (init_manager\<lparr>last_typed_text := ''Hi''\<rparr>, quiet_env) =
     Some (init_manager\<lparr>last_typed_text := ''Hi''\<rparr>, quiet_env)
   \<and> 0 < max_backspaces_per_update echo_config \<and> never_raises quiet_env
   \<and> replace_typed_text echo_config ''Hi'' [] quiet_env =
       Some (False, quiet_env\<lparr>issued := [Press ''backspace'', Press ''backspace'']\<rparr>)"
proof -
  have nr: "never_raises quiet_env" by (simp add: never_raises_def quiet_env_def)
  have B: "0 < max_backspaces_per_update echo_config" by (simp add: echo_config_def)
  have ev: "batched_deletion (nat (max_backspaces_per_update echo_config)) (length ''Hi'') =
      [Press ''backspace'', Press ''backspace'']"
    by code_simp
  from empty_text_is_ignored [of echo_config "init_manager\<lparr>last_typed_text := ''Hi''\<rparr>"
      quiet_env "''Hi''"] nr B ev
  show ?thesis by (simp add: quiet_env_def)
qed

text \<open>
  Claim C10: for a text that is empty or all whitespace (exactly the texts that
  \<^verbatim>\<open>not text or not text.strip()\<close> rejects) both entry points return \<^verbatim>\<open>False\<close>, issue
  nothing and leave the manager as it is; so the planner never sees an empty new text
  through them.
\<close>

theorem blank_text_is_dropped:
  "(strip text = [] \<longleftrightarrow> text = [] \<or> (\<forall>c\<in>set text. isspace c))
   \<and> (text = [] \<or> (\<forall>c\<in>set text. isspace c) \<longrightarrow>
        process_realtime_update cfg now text (m, w) = Some (False, m, w)
        \<and> finalize_text cfg now text (m, w) = Some (False, m, w))"
proof -
  have 1: "strip text = [] \<longleftrightarrow> text = [] \<or> (\<forall>c\<in>set text. isspace c)"
    by (auto simp: strip_Nil_iff)
  have "process_realtime_update cfg now text (m, w) = Some (False, m, w)
      \<and> finalize_text cfg now text (m, w) = Some (False, m, w)"
    if "strip text = []"
    using that by (simp add: process_realtime_update_def finalize_text_def)
  with 1 show ?thesis by blast
qed

theorem blank_text_is_dropped_witness:
  "process_realtime_update echo_config 3 ''  ''
       (init_manager\<lparr>last_typed_text := ''Hi''\<rparr>, quiet_env) =
     Some (False, init_manager\<lparr>last_typed_text := ''Hi''\<rparr>, quiet_env)
   \<and> finalize_text echo_config 3 ''  ''
       (init_manager\<lparr>last_typed_text := ''Hi''\<rparr>, quiet_env) =
     Some (False, init_manager\<lparr>last_typed_text := ''Hi''\<rparr>, quiet_env)
   \<and> process_realtime_update echo_config 3 []
       (init_manager\<lparr>last_typed_text := ''Hi''\<rparr>, quiet_env) =
     Some (False, init_manager\<lparr>last_typed_text := ''Hi''\<rparr>, quiet_env)"
proof -
  have sp: "\<forall>c\<in>set ''  ''. isspace c" by (simp add: isspace_def)
  from blank_text_is_dropped [of "''  ''" echo_config 3
      "init_manager\<lparr>last_typed_text := ''Hi''\<rparr>" quiet_env]
    blank_text_is_dropped [of "[]" echo_config 3
      "init_manager\<lparr>last_typed_text := ''Hi''\<rparr>" quiet_env] sp
  show ?thesis by simp
qed


section \<open>Claims about partial updates\<close>

text \<open>
  Claim C5: the redundancy check answers true exactly when the last finalized text is
  not empty, both normalized texts are not empty and the normalized finalized text
  starts with the normalized candidate; it is true of \<^verbatim>\<open>the sky is blue\<close> against
  \<^verbatim>\<open>The sky is blue.\<close>; and a partial update with a redundant text issues nothing and
  changes nothing.
\<close>

theorem redundant_partial_is_dropped:
  "is_redundant_with_finalized m text =
     (last_finalized_text m \<noteq> [] \<and> normalize_text text \<noteq> []
      \<and> normalize_text (last_finalized_text m) \<noteq> []
      \<and> prefix (normalize_text text) (normalize_text (last_finalized_text m)))
   \<and> is_redundant_with_finalized
        (init_manager\<lparr>last_finalized_text := ''The sky is blue.''\<rparr>) ''the sky is blue''
   \<and> (is_redundant_with_finalized m text \<longrightarrow>
        process_realtime_update cfg now text (m, w) = Some (False, m, w))"
proof -
  have 1: "is_redundant_with_finalized m text =
     (last_finalized_text m \<noteq> [] \<and> normalize_text text \<noteq> []
      \<and> normalize_text (last_finalized_text m) \<noteq> []
      \<and> prefix (normalize_text text) (normalize_text (last_finalized_text m)))"
    by (simp add: is_redundant_with_finalized_def Let_def)
  have n1: "normalize_text ''the sky is blue'' = ''the sky is blue''" by code_simp
  have n2: "normalize_text ''The sky is blue.'' = ''the sky is blue''" by code_simp
  have 2: "is_redundant_with_finalized
        (init_manager\<lparr>last_finalized_text := ''The sky is blue.''\<rparr>) ''the sky is blue''"
    by (simp add: is_redundant_with_finalized_def n1 n2)
  have 3: "process_realtime_update cfg now text (m, w) = Some (False, m, w)"
    if "is_redundant_with_finalized m text"
    using that by (simp add: process_realtime_update_def)
  from 1 2 3 show ?thesis by blast
qed

theorem redundant_partial_is_dropped_witness:
  "finalize_text echo_config 10 ''The sky is blue.'' (init_manager, quiet_env) =
     Some (True,
           init_manager\<lparr>last_finalized_text := ''The sky is blue.'',
             suppress_realtime_until := 21 / 2\<rparr>,
           quiet_env\<lparr>issued := [Typewrite ''The sky is blue. '']\<rparr>)
   \<and> is_redundant_with_finalized
        (init_manager\<lparr>last_finalized_text := ''The sky is blue.'',
           suppress_realtime_until := 21 / 2\<rparr>) ''the sky is blue''
   \<and> process_realtime_update echo_config 11 ''the sky is blue''
        (init_manager\<lparr>last_finalized_text := ''The sky is blue.'',
           suppress_realtime_until := 21 / 2\<rparr>,
         quiet_env\<lparr>issued := [Typewrite ''The sky is blue. '']\<rparr>) =
       Some (False,
             init_manager\<lparr>last_finalized_text := ''The sky is blue.'',
               suppress_realtime_until := 21 / 2\<rparr>,
             quiet_env\<lparr>issued := [Typewrite ''The sky is blue. '']\<rparr>)"
proof -
  let ?m = "init_manager\<lparr>last_finalized_text := ''The sky is blue.'',
              suppress_realtime_until := 21 / 2\<rparr>"
  let ?w = "quiet_env\<lparr>issued := [Typewrite ''The sky is blue. '']\<rparr>"
  have st: "strip ''The sky is blue.'' \<noteq> []" by code_simp
  have f: "finalize_text echo_config 10 ''The sky is blue.'' (init_manager, quiet_env) =
      Some (True, ?m, ?w)"
    using st
    by (simp add: finalize_text_def finalize_realtime_text_def sink_call_def echo_config_def
        init_manager_def quiet_env_def)
  have n1: "normalize_text ''the sky is blue'' = ''the sky is blue''" by code_simp
  have n2: "normalize_text ''The sky is blue.'' = ''the sky is blue''" by code_simp
  have r: "is_redundant_with_finalized ?m ''the sky is blue''"
    by (simp add: is_redundant_with_finalized_def n1 n2)
  from redundant_partial_is_dropped [of ?m "''the sky is blue''" echo_config 11 ?w] r
  have "process_realtime_update echo_config 11 ''the sky is blue'' (?m, ?w) =
      Some (False, ?m, ?w)"
    by blast
  with f r show ?thesis by simp
qed

section \<open>The suppression window\<close>

lemma finalize_text_accepted:
  assumes "finalize_text cfg t final_text (m, w) = Some (True, m', w')"
  shows "last_finalized_text m' = final_text \<and> strip final_text \<noteq> []
    \<and> (realtime_typing cfg \<longrightarrow> suppress_realtime_until m' = t + finalize_suppress_window cfg
          \<and> last_typed_text m' = [])"
  using assms
  by (auto simp: finalize_text_def finalize_realtime_text_def type_final_text_direct_def Let_def
      split: if_splits option.splits)

lemma finalize_text_refused:
  assumes "finalize_text cfg t final_text (m, w) = Some (False, m', w')"
  shows "m' = m"
  using assms
  by (auto simp: finalize_text_def finalize_realtime_text_def type_final_text_direct_def Let_def
      split: if_splits option.splits)

lemma planned_edits_Nil_iff: "new \<noteq> [] \<Longrightarrow> planned_edits b old new = [] \<longleftrightarrow> new = old"
  by (simp add: planned_edits_def)

text \<open>
  Claim C4: a partial update that arrives while \<open>now < suppress_realtime_until\<close> is a
  no-op: nothing is issued and no field of the manager changes. With a suppression
  window of zero a finalization at time \<open>t\<close> leaves \<open>suppress_realtime_until = t\<close>, and a
  partial update arriving at \<open>t\<close> or later is judged by the blank and redundancy checks
  alone.
\<close>

theorem suppression_window:
  "(now < suppress_realtime_until m \<longrightarrow>
      process_realtime_update cfg now text (m, w) = Some (False, m, w))
   \<and> (realtime_typing cfg \<and> finalize_suppress_window cfg = 0
        \<and> finalize_text cfg t final_text (m, w) = Some (True, m', w') \<and> t \<le> now \<longrightarrow>
        suppress_realtime_until m' = t
        \<and> process_realtime_update cfg now text (m', w') =
            (if strip text = [] \<or> is_redundant_with_finalized m' text then Some (False, m', w')
             else map_option (Pair True) (type_realtime_text cfg text (m', w'))))"
proof -
  have 1: "process_realtime_update cfg now text (m, w) = Some (False, m, w)"
    if "now < suppress_realtime_until m"
    using that by (simp add: process_realtime_update_def)
  have 2: "suppress_realtime_until m' = t
        \<and> process_realtime_update cfg now text (m', w') =
            (if strip text = [] \<or> is_redundant_with_finalized m' text then Some (False, m', w')
             else map_option (Pair True) (type_realtime_text cfg text (m', w')))"
    if a: "realtime_typing cfg" "finalize_suppress_window cfg = 0"
      "finalize_text cfg t final_text (m, w) = Some (True, m', w')" "t \<le> now"
  proof -
    from finalize_text_accepted [OF a(3)] a(1,2) have s: "suppress_realtime_until m' = t"
      by simp
    have e: "strip [] = []" by (simp add: strip_def rstrip_while_def)
    from s a(1,4) e show ?thesis
      by (auto simp: process_realtime_update_def split: option.splits)
  qed
  from 1 2 show ?thesis by blast
qed

theorem suppression_window_witness:
  "(2 :: real) / 10 < suppress_realtime_until (init_manager\<lparr>suppress_realtime_until := 1 / 2\<rparr>)
   \<and> process_realtime_update echo_config (2 / 10) ''Hello''
        (init_manager\<lparr>suppress_realtime_until := 1 / 2\<rparr>, quiet_env) =
       Some (False, init_manager\<lparr>suppress_realtime_until := 1 / 2\<rparr>, quiet_env)
   \<and> finalize_text (echo_config\<lparr>finalize_suppress_window := 0\<rparr>) 10 ''Hi.''
        (init_manager, quiet_env) =
       Some (True, init_manager\<lparr>last_finalized_text := ''Hi.'', suppress_realtime_until := 10\<rparr>,
             quiet_env\<lparr>issued := [Typewrite ''Hi. '']\<rparr>)
   \<and> process_realtime_update (echo_config\<lparr>finalize_suppress_window := 0\<rparr>) 10 ''Next''
        (init_manager\<lparr>last_finalized_text := ''Hi.'', suppress_realtime_until := 10\<rparr>,
         quiet_env\<lparr>issued := [Typewrite ''Hi. '']\<rparr>) =
       Some (True,
             init_manager\<lparr>last_typed_text := ''Next'', last_finalized_text := ''Hi.'',
               suppress_realtime_until := 10\<rparr>,
             quiet_env\<lparr>issued := [Typewrite ''Hi. '', Typewrite ''Next'']\<rparr>)"
proof -
  let ?cfg = "echo_config\<lparr>finalize_suppress_window := 0\<rparr>"
  let ?m = "init_manager\<lparr>last_finalized_text := ''Hi.'', suppress_realtime_until := 10\<rparr>"
  let ?w = "quiet_env\<lparr>issued := [Typewrite ''Hi. '']\<rparr>"
  have a: "process_realtime_update echo_config (2 / 10) ''Hello''
        (init_manager\<lparr>suppress_realtime_until := 1 / 2\<rparr>, quiet_env) =
       Some (False, init_manager\<lparr>suppress_realtime_until := 1 / 2\<rparr>, quiet_env)"
    using suppression_window [of "2 / 10" "init_manager\<lparr>suppress_realtime_until := 1 / 2\<rparr>"
        echo_config "''Hello''" quiet_env]
    by simp
  have st: "strip ''Hi.'' \<noteq> []" "strip ''Next'' \<noteq> []" by code_simp+
  have f: "finalize_text ?cfg 10 ''Hi.'' (init_manager, quiet_env) = Some (True, ?m, ?w)"
    using st
    by (simp add: finalize_text_def finalize_realtime_text_def sink_call_def echo_config_def
        init_manager_def quiet_env_def)
  have n1: "normalize_text ''Next'' = ''next''" by code_simp
  have n2: "normalize_text ''Hi.'' = ''hi''" by code_simp
  have nr: "\<not> is_redundant_with_finalized ?m ''Next''"
    by (simp add: is_redundant_with_finalized_def n1 n2)
  have ty: "type_realtime_text ?cfg ''Next'' (?m, ?w) =
      Some (?m\<lparr>last_typed_text := ''Next''\<rparr>,
            quiet_env\<lparr>issued := [Typewrite ''Hi. '', Typewrite ''Next'']\<rparr>)"
    by (simp add: type_realtime_text_def sink_call_def init_manager_def quiet_env_def Let_def)
  from suppression_window [of 10 init_manager ?cfg "''Next''" quiet_env 10 "''Hi.''" ?m ?w]
    f st nr ty
  have "process_realtime_update ?cfg 10 ''Next'' (?m, ?w) =
      Some (True, ?m\<lparr>last_typed_text := ''Next''\<rparr>,
            quiet_env\<lparr>issued := [Typewrite ''Hi. '', Typewrite ''Next'']\<rparr>)"
    by (simp add: echo_config_def)
  with a f show ?thesis by (simp add: init_manager_def)
qed


section \<open>Claims about finalization\<close>

text \<open>
  Claim C3 as the specification states it: a final text other than the last finalized
  one always updates the state, and two consecutive finals with the same text produce
  exactly one edit sequence that is not a no-op. It fails twice. A final text of
  whitespace is dropped by the first guard of \<^verbatim>\<open>finalize_text\<close> although it differs from
  the last finalized text; and when the live text already is the final text followed by
  a space, the first of two equal finals types nothing, so the two produce no edit at
  all.
\<close>

theorem finalize_blank_or_already_typed:
  "'' '' \<noteq> last_finalized_text init_manager
   \<and> finalize_text echo_config 10 '' '' (init_manager, quiet_env) =
       Some (False, init_manager, quiet_env)
   \<and> finalize_text echo_config 10 ''Hi'' (init_manager\<lparr>last_typed_text := ''Hi ''\<rparr>, quiet_env) =
       Some (True,
             init_manager\<lparr>last_finalized_text := ''Hi'', suppress_realtime_until := 21 / 2\<rparr>,
             quiet_env)
   \<and> finalize_text echo_config 11 ''Hi''
        (init_manager\<lparr>last_finalized_text := ''Hi'', suppress_realtime_until := 21 / 2\<rparr>,
         quiet_env) =
       Some (False,
             init_manager\<lparr>last_finalized_text := ''Hi'', suppress_realtime_until := 21 / 2\<rparr>,
             quiet_env)"
proof -
  have st: "strip '' '' = []" "strip ''Hi'' \<noteq> []" by code_simp+
  show ?thesis
    using st
    by (simp add: finalize_text_def finalize_realtime_text_def echo_config_def init_manager_def)
qed

text \<open>
  Claim C3, amended. With real-time echo enabled: a final text equal to the last
  finalized one is dropped, with no edit and no state change. A final text that is not
  blank and differs from the last finalized one, on a sink that does not raise and with
  a positive batch size, issues the planned edits from the live text to the text
  followed by a space (none exactly when the live text already is that), and then
  \<^verbatim>\<open>last_typed_text\<close> is empty, \<^verbatim>\<open>last_finalized_text\<close> is the text and
  \<^verbatim>\<open>suppress_realtime_until\<close> is \<open>now\<close> plus the suppression window. Once a final has been
  accepted, the next final with the same text is dropped: two consecutive equal finals
  produce at most one edit sequence, the first one's.
\<close>

theorem finalize_then_duplicate:
  "(final_text = last_finalized_text m \<longrightarrow>
      finalize_text cfg now final_text (m, w) = Some (False, m, w))
   \<and> (realtime_typing cfg \<and> strip final_text \<noteq> [] \<and> final_text \<noteq> last_finalized_text m
        \<and> 0 < max_backspaces_per_update cfg \<and> never_raises w \<longrightarrow>
        finalize_text cfg now final_text (m, w) =
          Some (True,
                m\<lparr>last_typed_text := [], last_finalized_text := final_text,
                  suppress_realtime_until := now + finalize_suppress_window cfg\<rparr>,
                w\<lparr>issued := issued w @
                  planned_edits (nat (max_backspaces_per_update cfg)) (last_typed_text m)
                    (final_text @ '' '')\<rparr>)
        \<and> (planned_edits (nat (max_backspaces_per_update cfg)) (last_typed_text m)
              (final_text @ '' '') = [] \<longleftrightarrow> last_typed_text m = final_text @ '' ''))
   \<and> (finalize_text cfg now final_text (m, w) = Some (True, m', w') \<longrightarrow>
        finalize_text cfg now' final_text (m', w') = Some (False, m', w'))"
proof -
  have 1: "finalize_text cfg now final_text (m, w) = Some (False, m, w)"
    if "final_text = last_finalized_text m"
    using that by (simp add: finalize_text_def)
  have 2: "finalize_text cfg now final_text (m, w) =
          Some (True,
                m\<lparr>last_typed_text := [], last_finalized_text := final_text,
                  suppress_realtime_until := now + finalize_suppress_window cfg\<rparr>,
                w\<lparr>issued := issued w @
                  planned_edits (nat (max_backspaces_per_update cfg)) (last_typed_text m)
                    (final_text @ '' '')\<rparr>)"
    if a: "realtime_typing cfg" "strip final_text \<noteq> []" "final_text \<noteq> last_finalized_text m"
      "0 < max_backspaces_per_update cfg" "never_raises w"
  proof -
    from a(2) have "final_text \<noteq> []" by (auto simp: strip_def rstrip_while_def)
    with a(1,2,3) have "finalize_text cfg now final_text (m, w) =
        finalize_realtime_text cfg now final_text (m, w)"
      by (simp add: finalize_text_def)
    with finalize_realtime_text_planned [OF a(4,5)] show ?thesis by simp
  qed
  have 3: "planned_edits (nat (max_backspaces_per_update cfg)) (last_typed_text m)
              (final_text @ '' '') = [] \<longleftrightarrow> last_typed_text m = final_text @ '' ''"
    using planned_edits_Nil_iff [of "final_text @ '' ''"] by auto
  have 4: "finalize_text cfg now' final_text (m', w') = Some (False, m', w')"
    if "finalize_text cfg now final_text (m, w) = Some (True, m', w')"
    using finalize_text_accepted [OF that] by (simp add: finalize_text_def)
  from 1 2 3 4 show ?thesis by blast
qed

theorem finalize_then_duplicate_witness:
  "finalize_text echo_config 10 ''Hello world''
       (init_manager\<lparr>last_typed_text := ''Hello wor''\<rparr>, quiet_env) =
     Some (True,
           init_manager\<lparr>last_finalized_text := ''Hello world'',
             suppress_realtime_until := 21 / 2\<rparr>,
           quiet_env\<lparr>issued := [Typewrite ''ld '']\<rparr>)
   \<and> finalize_text echo_config 11 ''Hello world''
       (init_manager\<lparr>last_finalized_text := ''Hello world'',
          suppress_realtime_until := 21 / 2\<rparr>,
        quiet_env\<lparr>issued := [Typewrite ''ld '']\<rparr>) =
     Some (False,
           init_manager\<lparr>last_finalized_text := ''Hello world'',
             suppress_realtime_until := 21 / 2\<rparr>,
           quiet_env\<lparr>issued := [Typewrite ''ld '']\<rparr>)"
proof -
  let ?m0 = "init_manager\<lparr>last_typed_text := ''Hello wor''\<rparr>"
  let ?m1 = "init_manager\<lparr>last_finalized_text := ''Hello world'',
               suppress_realtime_until := 21 / 2\<rparr>"
  let ?w1 = "quiet_env\<lparr>issued := [Typewrite ''ld '']\<rparr>"
  have st: "strip ''Hello world'' \<noteq> []" by code_simp
  have nr: "never_raises quiet_env" by (simp add: never_raises_def quiet_env_def)
  have pe: "planned_edits (nat (max_backspaces_per_update echo_config)) ''Hello wor''
      (''Hello world'' @ '' '') = [Typewrite ''ld '']"
    by (simp add: planned_edits_def)
  note th = finalize_then_duplicate [of "''Hello world''" ?m0 echo_config 10 quiet_env ?m1 ?w1 11]
  from th st nr pe
  have f: "finalize_text echo_config 10 ''Hello world'' (?m0, quiet_env) = Some (True, ?m1, ?w1)"
    by (simp add: echo_config_def init_manager_def quiet_env_def)
  with th have "finalize_text echo_config 11 ''Hello world'' (?m1, ?w1) = Some (False, ?m1, ?w1)"
    by blast
  with f show ?thesis by simp
qed

section \<open>Sink failures\<close>

text \<open>
  Claim C6 says that after a sink error, in a real-time update or in a finalization,
  \<^verbatim>\<open>last_typed_text\<close> is reset to the empty string. The handler of
  \<^verbatim>\<open>_type_realtime_text\<close> does so; the handler of \<^verbatim>\<open>_finalize_realtime_text\<close> only
  returns \<^verbatim>\<open>False\<close>. With the live text \<^verbatim>\<open>Hello\<close> and a sink whose first call raises, the
  update \<^verbatim>\<open>Bye\<close> stops at the first backspace and clears \<^verbatim>\<open>last_typed_text\<close>, while the
  final \<^verbatim>\<open>Bye\<close> stops there too, returns \<^verbatim>\<open>False\<close> and keeps \<^verbatim>\<open>Hello\<close>.
\<close>

theorem finalize_failure_keeps_live_text:
  "type_realtime_text echo_config ''Bye'' (init_manager\<lparr>last_typed_text := ''Hello''\<rparr>, broken_env) =
     Some (init_manager\<lparr>last_typed_text := []\<rparr>, broken_env\<lparr>issued := [Press ''backspace'']\<rparr>)
   \<and> finalize_text echo_config 10 ''Bye'' (init_manager\<lparr>last_typed_text := ''Hello''\<rparr>, broken_env) =
     Some (False, init_manager\<lparr>last_typed_text := ''Hello''\<rparr>,
           broken_env\<lparr>issued := [Press ''backspace'']\<rparr>)"
proof -
  have st: "strip ''Bye'' \<noteq> []" by code_simp
  have lp: "backspace_loop 512 5 broken_env = Some (True, broken_env\<lparr>issued := [Press ''backspace'']\<rparr>)"
    by (subst backspace_loop.simps)
       (simp add: eval_nat_numeral sink_call_def broken_env_def Let_def)
  have rp: "replace_typed_text echo_config ''Hello'' new broken_env =
      Some (True, broken_env\<lparr>issued := [Press ''backspace'']\<rparr>)" for new
    using lp by (simp add: replace_typed_text_def echo_config_def)
  show ?thesis
    using st rp
    by (simp add: type_realtime_text_def finalize_text_def finalize_realtime_text_def Let_def
        init_manager_def echo_config_def)
qed

section \<open>Claims about the configuration\<close>

lemma dataclass_init_stores:
  assumes "dataclass_init defaults (PDict kw) = Some s"
    and "map_of (rev kw) f = Some v"
  shows "map_of s f = Some v"
proof -
  from assms(2) have "f \<in> set (map fst kw)"
    by (metis map_of_eq_None_iff option.distinct(1) set_map set_rev)
  with assms(1) have fd: "f \<in> set (map fst defaults)"
    by (auto simp: dataclass_init_def list_all_iff split: if_splits)
  then obtain d where d: "map_of defaults f = Some d"
    by (metis map_of_eq_None_iff not_None_eq set_map)
  from assms(1) have s: "s = map (\<lambda>(f, d). (f, case map_of (rev kw) f of Some x \<Rightarrow> x | None \<Rightarrow> d))
      defaults"
    by (auto simp: dataclass_init_def split: if_splits)
  have "map_of (map (\<lambda>(f, d). (f, g f d)) xs) k = map_option (g k) (map_of xs k)" for g xs k
    by (induction xs) auto
  from this [of "\<lambda>f d. case map_of (rev kw) f of Some x \<Rightarrow> x | None \<Rightarrow> d" defaults f] s d assms(2)
  show ?thesis by simp
qed

lemma dataclass_init_default:
  assumes "dataclass_init defaults (PDict kw) = Some s"
    and "map_of (rev kw) f = None"
  shows "map_of s f = map_of defaults f"
proof -
  from assms(1) have s: "s = map (\<lambda>(f, d). (f, case map_of (rev kw) f of Some x \<Rightarrow> x | None \<Rightarrow> d))
      defaults"
    by (auto simp: dataclass_init_def split: if_splits)
  have "map_of (map (\<lambda>(f, d). (f, g f d)) xs) k = map_option (g k) (map_of xs k)" for g xs k
    by (induction xs) auto
  from this [of "\<lambda>f d. case map_of (rev kw) f of Some x \<Rightarrow> x | None \<Rightarrow> d" defaults f] s assms(2)
  show ?thesis by (cases "map_of defaults f") simp_all
qed

lemma load_settings_realtime:
  assumes "map_of (rev data) ''realtime'' = Some v"
    and "dataclass_init RealtimeSettings v = Some s"
    and "\<And>x. map_of (rev data) ''basic'' = Some x \<Longrightarrow> dataclass_init BasicSettings x \<noteq> None"
    and "\<And>x. map_of (rev data) ''wake_word'' = Some x \<Longrightarrow>
           dataclass_init WakeWordSettings x \<noteq> None"
  shows "realtime (load_settings (Parsed (PDict data)) c) = s"
proof -
  define later where "later =
      [(''vad'', VADSettings, \<lambda>s c. c\<lparr>vad := s\<rparr>),
       (''model'', ModelSettings, \<lambda>s c. c\<lparr>model := s\<rparr>),
       (''pause_detection'', PauseDetectionSettings, \<lambda>s c. c\<lparr>pause_detection := s\<rparr>),
       (''audio_notifications'', AudioNotificationSettings,
        \<lambda>s (c :: STTConfig). c\<lparr>audio_notifications := s\<rparr>)]"
  have later: "realtime (snd (load_sections data later c')) = realtime c'" for c'
    unfolding later_def by (simp split: option.splits)
  have r: "realtime (snd (load_sections data
      ((''realtime'', RealtimeSettings, \<lambda>s c. c\<lparr>realtime := s\<rparr>) # later) c')) = s" for c'
    using assms(1,2) by (simp add: later)
  have w: "realtime (snd (load_sections data
      ((''wake_word'', WakeWordSettings, \<lambda>s c. c\<lparr>wake_word := s\<rparr>) #
       (''realtime'', RealtimeSettings, \<lambda>s c. c\<lparr>realtime := s\<rparr>) # later) c')) = s" for c'
  proof (cases "map_of (rev data) ''wake_word''")
    case None
    then show ?thesis using r [of c'] by simp
  next
    case (Some x)
    with assms(4) obtain y where "dataclass_init WakeWordSettings x = Some y" by blast
    with Some show ?thesis using r [of "c'\<lparr>wake_word := y\<rparr>"] by simp
  qed
  have b: "realtime (snd (load_sections data
      ((''basic'', BasicSettings, \<lambda>s c. c\<lparr>basic := s\<rparr>) #
       (''wake_word'', WakeWordSettings, \<lambda>s c. c\<lparr>wake_word := s\<rparr>) #
       (''realtime'', RealtimeSettings, \<lambda>s c. c\<lparr>realtime := s\<rparr>) # later) c)) = s"
  proof (cases "map_of (rev data) ''basic''")
    case None
    then show ?thesis using w [of c] by simp
  next
    case (Some x)
    with assms(3) obtain y where "dataclass_init BasicSettings x = Some y" by blast
    with Some show ?thesis using w [of "c\<lparr>basic := y\<rparr>"] by simp
  qed
  then show ?thesis
    by (simp add: load_settings_def section_table_def later_def)
qed


text \<open>
  Claim C7 as the specification states it: a non-positive \<^verbatim>\<open>max_backspaces_per_update\<close> or
  a negative \<^verbatim>\<open>finalize_suppress_window\<close> makes the start fail. It fails: a settings file
  with the values 0 and -1 is loaded like any other, and the typing manager reads 0 and
  -1 from the configuration.
\<close>

theorem invalid_settings_are_loaded:
  "get_config (Parsed (PDict [(''realtime'',
       PDict [(''max_backspaces_per_update'', PInt 0),
              (''finalize_suppress_window'', PFloat (- 1))])])) =
     STTConfig_init\<lparr>realtime :=
       [(''processing_pause'', PFloat (2 / 100)),
        (''post_speech_silence_duration'', PFloat (7 / 10)),
        (''min_length_of_recording'', PFloat (3 / 10)),
        (''min_gap_between_recordings'', PFloat 0),
        (''finalize_suppress_window'', PFloat (- 1)),
        (''max_backspaces_per_update'', PInt 0)]\<rparr>
   \<and> manager_config (get_config (Parsed (PDict [(''realtime'',
       PDict [(''max_backspaces_per_update'', PInt 0),
              (''finalize_suppress_window'', PFloat (- 1))])]))) =
     Some \<lparr>realtime_typing = False, max_backspaces_per_update = 0,
           finalize_suppress_window = - 1\<rparr>"
  by (simp add: get_config_def load_settings_def section_table_def dataclass_init_def
      RealtimeSettings_def manager_config_def STTConfig_init_def BasicSettings_def)

text \<open>
  Claim C7, amended: loading the configuration validates neither setting and fails for
  no value of them. When the \<^verbatim>\<open>realtime\<close> section of the settings file is reached (the
  sections \<^verbatim>\<open>basic\<close> and \<^verbatim>\<open>wake_word\<close>, if present, construct) and names only fields of
  \<^verbatim>\<open>RealtimeSettings\<close>, then \<^verbatim>\<open>load_settings\<close> returns a configuration in which each of
  \<^verbatim>\<open>max_backspaces_per_update\<close> and \<^verbatim>\<open>finalize_suppress_window\<close> has the value the section
  gives it, whatever that is, and its default (512, 0.5) when the section does not give
  it; these are the values the typing manager reads. Nothing is clamped.
\<close>

theorem load_settings_validates_nothing:
  assumes "map_of (rev data) ''realtime'' = Some (PDict kw)"
    and "list_all (\<lambda>k. k \<in> set (map fst RealtimeSettings)) (map fst kw)"
    and "\<And>x. map_of (rev data) ''basic'' = Some x \<Longrightarrow> dataclass_init BasicSettings x \<noteq> None"
    and "\<And>x. map_of (rev data) ''wake_word'' = Some x \<Longrightarrow>
           dataclass_init WakeWordSettings x \<noteq> None"
    and "c' = load_settings (Parsed (PDict data)) c"
  shows "(map_of (rev kw) ''max_backspaces_per_update'' = Some b \<longrightarrow>
            map_of (realtime c') ''max_backspaces_per_update'' = Some b)
         \<and> (map_of (rev kw) ''max_backspaces_per_update'' = None \<longrightarrow>
            map_of (realtime c') ''max_backspaces_per_update'' = Some (PInt 512))
         \<and> (map_of (rev kw) ''finalize_suppress_window'' = Some x \<longrightarrow>
            map_of (realtime c') ''finalize_suppress_window'' = Some x)
         \<and> (map_of (rev kw) ''finalize_suppress_window'' = None \<longrightarrow>
            map_of (realtime c') ''finalize_suppress_window'' = Some (PFloat (1 / 2)))
         \<and> (map_of (realtime c') ''max_backspaces_per_update'' = Some (PInt n)
              \<and> map_of (realtime c') ''finalize_suppress_window'' = Some (PFloat r)
              \<and> map_of (basic c') ''realtime_typing'' = Some (PBool e) \<longrightarrow>
              manager_config c' =
                Some \<lparr>realtime_typing = e, max_backspaces_per_update = n,
                      finalize_suppress_window = r\<rparr>)"
proof -
  from assms(2) obtain s where s: "dataclass_init RealtimeSettings (PDict kw) = Some s"
    by (simp add: dataclass_init_def)
  from load_settings_realtime [OF assms(1) s assms(3,4)] assms(5)
  have r: "realtime c' = s" by blast
  have 1: "map_of (realtime c') ''max_backspaces_per_update'' = Some b"
    if "map_of (rev kw) ''max_backspaces_per_update'' = Some b"
    using dataclass_init_stores [OF s that] r by simp
  have 2: "map_of (realtime c') ''max_backspaces_per_update'' = Some (PInt 512)"
    if "map_of (rev kw) ''max_backspaces_per_update'' = None"
    using dataclass_init_default [OF s that] r by (simp add: RealtimeSettings_def)
  have 3: "map_of (realtime c') ''finalize_suppress_window'' = Some x"
    if "map_of (rev kw) ''finalize_suppress_window'' = Some x"
    using dataclass_init_stores [OF s that] r by simp
  have 4: "map_of (realtime c') ''finalize_suppress_window'' = Some (PFloat (1 / 2))"
    if "map_of (rev kw) ''finalize_suppress_window'' = None"
    using dataclass_init_default [OF s that] r by (simp add: RealtimeSettings_def)
  have 5: "manager_config c' =
      Some \<lparr>realtime_typing = e, max_backspaces_per_update = n, finalize_suppress_window = r\<rparr>"
    if "map_of (realtime c') ''max_backspaces_per_update'' = Some (PInt n)"
      "map_of (realtime c') ''finalize_suppress_window'' = Some (PFloat r)"
      "map_of (basic c') ''realtime_typing'' = Some (PBool e)" for r
    using that by (simp add: manager_config_def)
  from 1 2 3 4 5 show ?thesis by blast
qed

theorem load_settings_validates_nothing_witness:
  "map_of (realtime (load_settings (Parsed (PDict
       [(''basic'', PDict [(''realtime_typing'', PBool True)]),
        (''realtime'', PDict [(''max_backspaces_per_update'', PInt (- 5))])])) STTConfig_init))
     ''max_backspaces_per_update'' = Some (PInt (- 5))
   \<and> map_of (realtime (load_settings (Parsed (PDict
       [(''basic'', PDict [(''realtime_typing'', PBool True)]),
        (''realtime'', PDict [(''max_backspaces_per_update'', PInt (- 5))])])) STTConfig_init))
     ''finalize_suppress_window'' = Some (PFloat (1 / 2))
   \<and> manager_config (load_settings (Parsed (PDict
       [(''basic'', PDict [(''realtime_typing'', PBool True)]),
        (''realtime'', PDict [(''max_backspaces_per_update'', PInt (- 5))])])) STTConfig_init) =
     Some \<lparr>realtime_typing = True, max_backspaces_per_update = - 5,
           finalize_suppress_window = 1 / 2\<rparr>
   \<and> map_of (realtime (load_settings (Parsed (PDict
       [(''realtime'', PDict [(''finalize_suppress_window'', PFloat (- 2))])])) STTConfig_init))
     ''finalize_suppress_window'' = Some (PFloat (- 2))
   \<and> map_of (realtime (load_settings (Parsed (PDict
       [(''realtime'', PDict [(''finalize_suppress_window'', PFloat (- 2))])])) STTConfig_init))
     ''max_backspaces_per_update'' = Some (PInt 512)"
proof -
  let ?data = "[(''basic'', PDict [(''realtime_typing'', PBool True)]),
        (''realtime'', PDict [(''max_backspaces_per_update'', PInt (- 5))])]"
  let ?data' = "[(''realtime'', PDict [(''finalize_suppress_window'', PFloat (- 2))])]"
  have bs: "map_of (basic (load_settings (Parsed (PDict ?data)) STTConfig_init))
      ''realtime_typing'' = Some (PBool True)"
    by (simp add: load_settings_def section_table_def dataclass_init_def BasicSettings_def
        RealtimeSettings_def)
  from load_settings_validates_nothing [of ?data
      "[(''max_backspaces_per_update'', PInt (- 5))]"
      "load_settings (Parsed (PDict ?data)) STTConfig_init"
      STTConfig_init "PInt (- 5)" "PFloat (- 2)" "- 5" "1 / 2" True] bs
  have 1: "map_of (realtime (load_settings (Parsed (PDict ?data)) STTConfig_init))
        ''max_backspaces_per_update'' = Some (PInt (- 5))
      \<and> map_of (realtime (load_settings (Parsed (PDict ?data)) STTConfig_init))
        ''finalize_suppress_window'' = Some (PFloat (1 / 2))
      \<and> manager_config (load_settings (Parsed (PDict ?data)) STTConfig_init) =
        Some \<lparr>realtime_typing = True, max_backspaces_per_update = - 5,
              finalize_suppress_window = 1 / 2\<rparr>"
    by (simp add: RealtimeSettings_def BasicSettings_def dataclass_init_def)
  from load_settings_validates_nothing [of ?data'
      "[(''finalize_suppress_window'', PFloat (- 2))]"
      "load_settings (Parsed (PDict ?data')) STTConfig_init"
      STTConfig_init "PInt 0" "PFloat (- 2)"]
  have 2: "map_of (realtime (load_settings (Parsed (PDict ?data')) STTConfig_init))
        ''finalize_suppress_window'' = Some (PFloat (- 2))
      \<and> map_of (realtime (load_settings (Parsed (PDict ?data')) STTConfig_init))
        ''max_backspaces_per_update'' = Some (PInt 512)"
    by (simp add: RealtimeSettings_def dataclass_init_def)
  from 1 2 show ?thesis by blast
qed

end
